theory Spec2Isabelle
  imports Complex_Main "HOL-Library.AList"
begin

section \<open>Poisson football: the Bayesian update and prediction engine of football1.py\<close>

text \<open>
  The program keeps, for each scoring type of a team, a discrete distribution over
  candidate scoring rates, updates it with observed inter-arrival times and predicts the
  points still to come.

  Numbers: Python floats are read as real numbers, so every statement below is about
  the exact arithmetic the code approximates; rounding, overflow and NaN are outside
  the model. Counts and points are Python ints, here \<open>int\<close>.

  A distribution wraps a Python dict from values to masses. It is modelled as an
  association list in insertion order; a dict has each key once, which is the
  condition \<open>distinct (map fst d)\<close> where a statement needs it.
\<close>

subsection \<open>Errors\<close>

datatype error =
    DegenerateDistribution
  | AttributeError string
  | NameError string

subsection \<open>The discrete distribution\<close>

type_synonym 'k Pmf = "('k \<times> real) list"

text \<open>Modelled from the spec: the distribution class (thinkbayes2.Pmf) is not in the
  sources. \<open>items()\<close> produces the (value, mass) pairs of one pass.\<close>

definition Items :: "'k Pmf \<Rightarrow> ('k \<times> real) list" where
  "Items d = d"

text \<open>Modelled from the spec: the mass of a value, 0 if the value is absent.\<close>

definition Prob :: "'k Pmf \<Rightarrow> 'k \<Rightarrow> real" where
  "Prob d x = (case map_of d x of None \<Rightarrow> 0 | Some p \<Rightarrow> p)"

text \<open>Modelled from the spec: \<open>set(value, mass)\<close> assigns or overwrites the mass of a
  value, with no normalization.\<close>

definition Pmf_Set :: "'k \<Rightarrow> real \<Rightarrow> 'k Pmf \<Rightarrow> 'k Pmf" where
  "Pmf_Set x p d = AList.update x p d"

text \<open>Modelled from the spec: \<open>incrementMass(value, delta)\<close> adds delta to the existing
  mass (0 if absent).\<close>

definition Incr :: "'k \<Rightarrow> real \<Rightarrow> 'k Pmf \<Rightarrow> 'k Pmf" where
  "Incr x delta d = Pmf_Set x (Prob d x + delta) d"

text \<open>Modelled from the spec: the total mass of a distribution.\<close>

definition Total :: "'k Pmf \<Rightarrow> real" where
  "Total d = sum_list (map snd d)"

text \<open>Modelled from the spec: \<open>normalize()\<close> divides every mass by the total; a total
  of zero is the error DegenerateDistribution, signalled to the caller.\<close>

definition Normalize :: "'k Pmf \<Rightarrow> error + 'k Pmf" where
  "Normalize d =
     (if Total d = 0 then Inl DegenerateDistribution
      else Inr (map (\<lambda>(x, p). (x, p / Total d)) d))"

text \<open>Modelled from the spec: \<open>shift(amount)\<close> returns a new distribution with every
  key offset by the amount.\<close>

definition Shift :: "int \<Rightarrow> int Pmf \<Rightarrow> int Pmf" where
  "Shift amount d = map (\<lambda>(k, p). (k + amount, p)) d"

subsection \<open>The rate-hypothesis suite (class ScoreType)\<close>

text \<open>Modelled from the spec: the exponential inter-arrival density
  (thinkbayes2.EvalExponentialPdf), \<open>lam * exp(-lam * x)\<close>.\<close>

definition EvalExponentialPdf :: "real \<Rightarrow> real \<Rightarrow> real" where
  "EvalExponentialPdf x lam = lam * exp (- lam * x)"

text \<open>ScoreType.Likelihood (football1.py, lines 61 to 70).\<close>

definition Likelihood :: "real \<Rightarrow> real \<Rightarrow> real" where
  "Likelihood data hypo =
     (let x = data;
          lam = hypo / 60;
          like = EvalExponentialPdf x lam
      in like)"

text \<open>Modelled from the spec: the update of a suite (thinkbayes2.Suite.Update, which
  ScoreType inherits): for each (hypothesis, mass) of the distribution the new mass is
  the mass times the likelihood, set in place; then the distribution is normalized.\<close>

definition Update :: "real Pmf \<Rightarrow> real \<Rightarrow> error + real Pmf" where
  "Update s data =
     Normalize (fold (\<lambda>(h, p) d. Pmf_Set h (p * Likelihood data h) d) (Items s) s)"

text \<open>Modelled from the spec: a suite is uniform over its hypotheses at construction
  (the constructor ScoreType inherits): every hypothesis is set to mass 1 and the
  distribution, when it is not empty, is normalized.\<close>

definition ScoreType_init :: "real list \<Rightarrow> error + real Pmf" where
  "ScoreType_init hypos =
     (let d = fold (\<lambda>h d. Pmf_Set h 1 d) hypos []
      in if d = [] then Inr d else Normalize d)"

subsection \<open>The Poisson builder and the mixture\<close>

text \<open>Modelled from the spec: the Poisson probability mass at count \<open>k\<close> for an
  expected count \<open>lam\<close>.\<close>

definition EvalPoissonPmf :: "nat \<Rightarrow> real \<Rightarrow> real" where
  "EvalPoissonPmf k lam = lam ^ k * exp (- lam) / fact k"

text \<open>Modelled from the spec: \<open>buildPoissonPmf\<close> (thinkbayes2.MakePoissonPmf) computes
  the mass at each integer from 0 to the bound inclusive, then normalizes.\<close>

definition MakePoissonPmf :: "real \<Rightarrow> nat \<Rightarrow> error + int Pmf" where
  "MakePoissonPmf lam high =
     Normalize (fold (\<lambda>k d. Pmf_Set (int k) (EvalPoissonPmf k lam) d) [0..<Suc high] [])"

text \<open>Modelled from the spec: the mixture (thinkbayes2.MakeMixture): for every
  (inner distribution, weight) pair and every (k, mass) of the inner distribution,
  weight * mass is accumulated into the output under the key \<open>k\<close>.\<close>

definition MakeMixture :: "('k Pmf \<times> real) list \<Rightarrow> 'k Pmf" where
  "MakeMixture metapmf =
     fold (\<lambda>(pmf, p1) mix. fold (\<lambda>(x, p2) mix. Incr x (p1 * p2) mix) (Items pmf) mix)
       metapmf []"

text \<open>ScoreType.PredRemaining (football1.py, lines 72 to 88). The loop over the items
  of the suite records one Poisson distribution per hypothesis in \<open>metapmf\<close>. The source
  keys \<open>metapmf\<close> by the distribution object itself, a fresh object at every pass, so
  every pass adds an entry: \<open>metapmf\<close> is the list of the (distribution, weight) pairs.\<close>

fun PredRemaining_loop ::
  "(real \<times> real) list \<Rightarrow> real \<Rightarrow> (int Pmf \<times> real) list \<Rightarrow> error + (int Pmf \<times> real) list" where
  "PredRemaining_loop [] rem_time metapmf = Inr metapmf"
| "PredRemaining_loop ((lam, prob) # rest) rem_time metapmf =
     (let lt = lam * rem_time / 60
      in case MakePoissonPmf lt 20 of
           Inl e \<Rightarrow> Inl e
         | Inr pmf \<Rightarrow> PredRemaining_loop rest rem_time (metapmf @ [(pmf, prob)]))"

definition PredRemaining :: "real Pmf \<Rightarrow> real \<Rightarrow> int \<Rightarrow> error + int Pmf" where
  "PredRemaining s rem_time score =
     (case PredRemaining_loop (Items s) rem_time [] of
        Inl e \<Rightarrow> Inl e
      | Inr metapmf \<Rightarrow>
          (let mix = MakeMixture metapmf;
               mix = Shift score mix
           in Inr mix))"

subsection \<open>The team model (class Football)\<close>

record Football =
  TD :: "real Pmf"
  FG :: "real Pmf"

text \<open>Football.__init__ (lines 20 to 22): the only attributes an instance gets.\<close>

definition Football_init :: "real list \<times> real list \<Rightarrow> error + Football" where
  "Football_init hypos =
     (case ScoreType_init (fst hypos) of
        Inl e \<Rightarrow> Inl e
      | Inr td \<Rightarrow>
          (case ScoreType_init (snd hypos) of
             Inl e \<Rightarrow> Inl e
           | Inr fg \<Rightarrow> Inr \<lparr>TD = td, FG = fg\<rparr>))"

text \<open>Reading a data attribute of an instance: \<open>TD\<close> and \<open>FG\<close> are assigned by the
  constructor, no other data attribute is assigned anywhere in the program or defined
  by the class, and Python raises AttributeError for a name it does not find.\<close>

definition Football_getattr :: "Football \<Rightarrow> string \<Rightarrow> error + real Pmf" where
  "Football_getattr self name =
     (if name = ''TD'' then Inr (TD self)
      else if name = ''FG'' then Inr (FG self)
      else Inl (AttributeError name))"

text \<open>Football.Update (lines 24 to 30). Its first statement reads \<open>self.score\<close>.\<close>

definition Football_Update :: "Football \<Rightarrow> real \<times> real \<Rightarrow> error + Football" where
  "Football_Update self data =
     (case Football_getattr self ''score'' of
        Inl e \<Rightarrow> Inl e
      | Inr score \<Rightarrow>
          (case Update score (fst data) of
             Inl e \<Rightarrow> Inl e
           | Inr score' \<Rightarrow>
               (case Update (TD self) (fst data) of
                  Inl e \<Rightarrow> Inl e
                | Inr td \<Rightarrow>
                    (case Update (FG self) (snd data) of
                       Inl e \<Rightarrow> Inl e
                     | Inr fg \<Rightarrow> Inr (self\<lparr>TD := td, FG := fg\<rparr>)))))"

text \<open>Football.UpdateFG (lines 32 to 36) and Football.UpdateTD (lines 38 to 42).\<close>

definition Football_UpdateFG :: "Football \<Rightarrow> real \<Rightarrow> error + Football" where
  "Football_UpdateFG self delta_time =
     (case Update (FG self) delta_time of
        Inl e \<Rightarrow> Inl e
      | Inr fg \<Rightarrow> Inr (self\<lparr>FG := fg\<rparr>))"

definition Football_UpdateTD :: "Football \<Rightarrow> real \<Rightarrow> error + Football" where
  "Football_UpdateTD self delta_time =
     (case Update (TD self) delta_time of
        Inl e \<Rightarrow> Inl e
      | Inr td \<Rightarrow> Inr (self\<lparr>TD := td\<rparr>))"

text \<open>Modelled from the spec: scaling the keys of a count distribution by a point
  value (the product of a distribution and a number).\<close>

definition Scale :: "int \<Rightarrow> int Pmf \<Rightarrow> int Pmf" where
  "Scale factor d = map (\<lambda>(k, p). (k * factor, p)) d"

text \<open>Modelled from the spec: the convolution of two distributions (the sum of two
  distributions): for every pair of entries the product of the masses is accumulated
  under the sum of the keys.\<close>

definition Convolve :: "int Pmf \<Rightarrow> int Pmf \<Rightarrow> int Pmf" where
  "Convolve d1 d2 =
     fold (\<lambda>(v1, p1) pmf. fold (\<lambda>(v2, p2) pmf. Incr (v1 + v2) (p1 * p2) pmf) (Items d2) pmf)
       (Items d1) []"

text \<open>Football.PredRemaining (lines 44 to 54).\<close>

definition Football_PredRemaining :: "Football \<Rightarrow> real \<Rightarrow> int \<Rightarrow> error + int Pmf" where
  "Football_PredRemaining self rem_time points_scored =
     (case PredRemaining (FG self) rem_time 0 of
        Inl e \<Rightarrow> Inl e
      | Inr FGpredict \<Rightarrow>
          (case PredRemaining (TD self) rem_time 0 of
             Inl e \<Rightarrow> Inl e
           | Inr TDpredict \<Rightarrow>
               (let GoalTotal = Convolve (Scale 3 FGpredict) (Scale 7 TDpredict);
                    GoalTotal = Shift points_scored GoalTotal
                in Inr GoalTotal)))"

subsection \<open>The driver (constructPriors and main)\<close>

text \<open>Modelled from the spec: the hypothesis grid (numpy.linspace), \<open>num\<close> evenly spaced
  values from \<open>start\<close> to \<open>stop\<close> inclusive; the driver's grid is 0, 0.1, ..., 20.\<close>

definition linspace :: "real \<Rightarrow> real \<Rightarrow> nat \<Rightarrow> real list" where
  "linspace start stop num =
     map (\<lambda>i. start + real i * ((stop - start) / real (num - 1))) [0..<num]"

text \<open>An event of the log: remaining time, scoring type, team (\<open>item[0]\<close>, \<open>item[1]\<close>,
  \<open>item[2]\<close> in the source). The log of a team, the result of \<open>scrape_team\<close>, is a
  list of games, each a list of events; it is a parameter of the driver.\<close>

type_synonym item = "real \<times> string \<times> string"

text \<open>The body of the inner loop of constructPriors (lines 110 to 123 for the Eagles,
  lines 130 to 143 for the Giants: the same statements with the other team's name and
  variables). The state is (last_time_FG, last_time_TD, the team model).\<close>

definition constructPriors_item ::
  "string \<Rightarrow> real \<times> real \<times> Football \<Rightarrow> item \<Rightarrow> error + (real \<times> real \<times> Football)" where
  "constructPriors_item team st item =
     (case st of (last_time_FG, last_time_TD, model) \<Rightarrow>
        if snd (snd item) = team then
          (case (if fst (snd item) = ''FG''
                 then (let rem_time = fst item;
                           inter_arrival = last_time_FG - rem_time
                       in case Football_UpdateFG model inter_arrival of
                            Inl e \<Rightarrow> Inl e
                          | Inr model' \<Rightarrow> Inr (rem_time, last_time_TD, model'))
                 else Inr (last_time_FG, last_time_TD, model)) of
             Inl e \<Rightarrow> Inl e
           | Inr (last_time_FG, last_time_TD, model) \<Rightarrow>
               if fst (snd item) = ''TD''
               then (let rem_time = fst item;
                         inter_arrival = last_time_TD - rem_time
                     in case Football_UpdateTD model inter_arrival of
                          Inl e \<Rightarrow> Inl e
                        | Inr model' \<Rightarrow> Inr (last_time_FG, rem_time, model'))
               else Inr (last_time_FG, last_time_TD, model))
        else Inr (last_time_FG, last_time_TD, model))"

fun constructPriors_game ::
  "string \<Rightarrow> real \<times> real \<times> Football \<Rightarrow> item list \<Rightarrow> error + (real \<times> real \<times> Football)" where
  "constructPriors_game team st [] = Inr st"
| "constructPriors_game team st (item # rest) =
     (case constructPriors_item team st item of
        Inl e \<Rightarrow> Inl e
      | Inr st' \<Rightarrow> constructPriors_game team st' rest)"

text \<open>The outer loop (lines 107 to 109 and 127 to 129): both clocks advance by 60 at
  the start of each game.\<close>

fun constructPriors_team ::
  "string \<Rightarrow> real \<times> real \<times> Football \<Rightarrow> item list list \<Rightarrow> error + (real \<times> real \<times> Football)" where
  "constructPriors_team team st [] = Inr st"
| "constructPriors_team team (last_time_FG, last_time_TD, model) (game # rest) =
     (case constructPriors_game team (last_time_FG + 60, last_time_TD + 60, model) game of
        Inl e \<Rightarrow> Inl e
      | Inr st' \<Rightarrow> constructPriors_team team st' rest)"

text \<open>constructPriors (lines 90 to 145), with the two scraped logs as parameters.\<close>

definition constructPriors ::
  "item list list \<Rightarrow> item list list \<Rightarrow> error + (Football \<times> Football)" where
  "constructPriors eagles_data giants_data =
     (case Football_init (linspace 0 20 201, linspace 0 20 201) of
        Inl e \<Rightarrow> Inl e
      | Inr eagles \<Rightarrow>
     (case Football_init (linspace 0 20 201, linspace 0 20 201) of
        Inl e \<Rightarrow> Inl e
      | Inr giants \<Rightarrow>
     (case constructPriors_team ''Eagles'' (0, 0, eagles) eagles_data of
        Inl e \<Rightarrow> Inl e
      | Inr (last_time_FG_eagles, last_time_TD_eagles, eagles) \<Rightarrow>
     (case constructPriors_team ''Giants'' (0, 0, giants) giants_data of
        Inl e \<Rightarrow> Inl e
      | Inr (last_time_FG_giants, last_time_TD_giants, giants) \<Rightarrow>
          Inr (eagles, giants)))))"

text \<open>Reading a name in main: the names bound to distributions are the two locals main
  assigns; the module binds no distribution at top level. Python raises NameError for a
  name it finds neither among the locals nor among the globals.\<close>

definition lookup_name :: "(string \<rightharpoonup> int Pmf) \<Rightarrow> string \<Rightarrow> error + int Pmf" where
  "lookup_name env name =
     (case env name of None \<Rightarrow> Inl (NameError name) | Some v \<Rightarrow> Inr v)"

text \<open>What main prints: a label with a probability, or an interval.\<close>

datatype printed = Labelled string real | Interval "int \<times> int"

text \<open>main (lines 148 to 160). The comparison of two distributions (\<open>ProbLess\<close>) and the
  credible interval of a distribution (\<open>MakeCdf().CredibleInterval\<close>) belong to the
  absent distribution class and are parameters. The arguments of each \<open>print\<close> are
  evaluated left to right before anything is printed.\<close>

definition main ::
  "(int Pmf \<Rightarrow> int Pmf \<Rightarrow> real) \<Rightarrow> (int Pmf \<Rightarrow> nat \<Rightarrow> int \<times> int) \<Rightarrow>
   item list list \<Rightarrow> item list list \<Rightarrow> error + printed list" where
  "main ProbLess CredibleInterval eagles_data giants_data =
     (case constructPriors eagles_data giants_data of
        Inl e \<Rightarrow> Inl e
      | Inr (eagles, giants) \<Rightarrow>
     (case Football_PredRemaining giants 60 0 of
        Inl e \<Rightarrow> Inl e
      | Inr GoalTotalGiants \<Rightarrow>
     (case Football_PredRemaining eagles 60 0 of
        Inl e \<Rightarrow> Inl e
      | Inr GoalTotalEagles \<Rightarrow>
     (let env = [''GoalTotalGiants'' \<mapsto> GoalTotalGiants, ''GoalTotalEagles'' \<mapsto> GoalTotalEagles]
      in
     (case lookup_name env ''GoalTotalEagles'' of Inl e \<Rightarrow> Inl e | Inr a1 \<Rightarrow>
     (case lookup_name env ''GoalTotal_giants'' of Inl e \<Rightarrow> Inl e | Inr b1 \<Rightarrow>
     (case lookup_name env ''GoalTotalGiants'' of Inl e \<Rightarrow> Inl e | Inr a2 \<Rightarrow>
     (case lookup_name env ''GoalTotal_eagles'' of Inl e \<Rightarrow> Inl e | Inr b2 \<Rightarrow>
     (case lookup_name env ''GoalTotalEagles'' of Inl e \<Rightarrow> Inl e | Inr c1 \<Rightarrow>
     (case lookup_name env ''GoalTotalGiants'' of Inl e \<Rightarrow> Inl e | Inr c2 \<Rightarrow>
        Inr [Labelled ''Giants win'' (ProbLess a1 b1),
             Labelled ''Eagles win'' (ProbLess a2 b2),
             Interval (CredibleInterval c1 90),
             Interval (CredibleInterval c2 90)]))))))))))"

text \<open>A suite as the driver keeps it: each key once, no negative hypothesis or mass, and
  a positive hypothesis of positive mass.\<close>

definition evidence_suite :: "real Pmf \<Rightarrow> bool" where
  "evidence_suite s \<longleftrightarrow>
     distinct (map fst s) \<and> list_all (\<lambda>e. 0 \<le> fst e \<and> 0 \<le> snd e) s
     \<and> list_ex (\<lambda>e. 0 < fst e \<and> 0 < snd e) s"

section \<open>Properties\<close>

subsection \<open>Association lists\<close>

lemma update_middle:
  "k \<notin> fst ` set as \<Longrightarrow> AList.update k v (as @ (k, p) # bs) = as @ (k, v) # bs"
  by (induction as) auto

lemma fold_Set_own_items:
  "distinct (map fst (ys @ xs)) \<Longrightarrow>
   fold (\<lambda>(h, p) d. Pmf_Set h (g h p) d) xs (map (\<lambda>(h, p). (h, g h p)) ys @ xs)
     = map (\<lambda>(h, p). (h, g h p)) (ys @ xs)"
proof (induction xs arbitrary: ys)
  case Nil
  then show ?case by simp
next
  case (Cons x xs)
  obtain h p where x: "x = (h, p)" by (cases x)
  have notin: "h \<notin> fst ` set (map (\<lambda>(h, p). (h, g h p)) ys)"
    using Cons.prems x by (auto simp: image_iff)
  have step: "Pmf_Set h (g h p) (map (\<lambda>(h, p). (h, g h p)) ys @ (h, p) # xs)
      = map (\<lambda>(h, p). (h, g h p)) (ys @ [(h, p)]) @ xs"
    unfolding Pmf_Set_def using update_middle [OF notin] by simp
  have d: "distinct (map fst ((ys @ [(h, p)]) @ xs))"
    using Cons.prems x by simp
  show ?case
    using Cons.IH [OF d] step x by simp
qed

lemma fold_Set_items:
  assumes "distinct (map fst s)"
  shows "fold (\<lambda>(h, p) d. Pmf_Set h (g h p) d) s s = map (\<lambda>(h, p). (h, g h p)) s"
  using fold_Set_own_items [of "[]" s g] assms by simp

subsection \<open>The update\<close>

lemma Update_unfold:
  assumes "distinct (map fst s)"
  shows "Update s x = Normalize (map (\<lambda>(h, p). (h, p * Likelihood x h)) s)"
  unfolding Update_def Items_def
  using fold_Set_items [OF assms, of "\<lambda>h p. p * Likelihood x h"] by simp

lemma Total_scaled:
  "Total (map (\<lambda>(h, p). (h, p * f h)) s) = (\<Sum>(h, p)\<leftarrow>s. p * f h)"
  unfolding Total_def by (induction s) auto

lemma Likelihood_eq: "Likelihood x h = (h / 60) * exp (- (h / 60) * x)"
  by (simp add: Likelihood_def EvalExponentialPdf_def)

text \<open>The two exponentials of the scenario with the hypotheses 5 and 10 and a gap of 12.\<close>

lemma exp_minus_two: "exp (- 2 :: real) = exp (- 1) * exp (- 1)"
  using exp_add [of "- 1 :: real" "- 1"] by simp

lemma two_exp_minus_one: "2 * exp (- 1 :: real) < 1"
proof -
  have "1 + (1::real) + 1\<^sup>2 / 2 \<le> exp 1"
    by (rule exp_lower_Taylor_quadratic) simp
  then have "2 < exp (1::real)" by simp
  then have "2 * exp (- 1 :: real) < exp 1 * exp (- 1)"
    by (simp del: exp_minus add: mult_less_cancel_right)
  also have "\<dots> = 1" by (simp add: exp_minus)
  finally show ?thesis .
qed

lemma two_point_ratio:
  "(exp (- 2) / 12) / (exp (- 1) / 24 + exp (- 2) / 12)
     = 2 * exp (- 1) * ((exp (- 1) / 24) / (exp (- 1) / 24 + exp (- 2) / (12::real)))"
  unfolding exp_minus_two by (simp add: field_simps)

lemma two_point_order:
  "(exp (- 2) / 12) / (exp (- 1) / 24 + exp (- 2) / 12)
     < (exp (- 1) / 24) / (exp (- 1) / 24 + exp (- 2) / (12::real))"
proof -
  let ?B = "(exp (- 1) / 24) / (exp (- 1) / 24 + exp (- 2) / (12::real))"
  have pos: "0 < ?B"
    by (simp add: add_pos_pos)
  have "2 * exp (- 1) * ?B < 1 * ?B"
    by (rule mult_strict_right_mono [OF two_exp_minus_one pos])
  then have "2 * exp (- 1) * ?B < ?B"
    by (simp only: mult_1)
  then show ?thesis
    by (subst two_point_ratio)
qed

text \<open>
  C1. For every suite and every observed gap \<open>x\<close>, the update multiplies the mass of
  each hypothesis \<open>h\<close> by the exponential density \<open>(h/60) * exp (-(h/60) * x)\<close> and
  renormalizes: when the total \<open>Z\<close> of the multiplied masses is not zero, the posterior
  has the hypotheses of the prior, each with mass \<open>prior h * (h/60) * exp (-(h/60) * x) / Z\<close>;
  when it is zero the update signals the degenerate distribution.
\<close>

theorem Update_posterior:
  assumes "distinct (map fst s)"
  shows "Update s x =
    (if (\<Sum>(h, p)\<leftarrow>s. p * ((h / 60) * exp (- (h / 60) * x))) = 0
     then Inl DegenerateDistribution
     else Inr (map (\<lambda>(h, p). (h, p * ((h / 60) * exp (- (h / 60) * x))
                 / (\<Sum>(h', p')\<leftarrow>s. p' * ((h' / 60) * exp (- (h' / 60) * x))))) s))"
proof -
  let ?f = "\<lambda>h. (h / 60) * exp (- (h / 60) * x)"
  have L: "Likelihood x = ?f"
    by (rule ext) (simp add: Likelihood_eq)
  have T: "Total (map (\<lambda>(h, p). (h, p * ?f h)) s) = (\<Sum>(h, p)\<leftarrow>s. p * ?f h)"
    by (rule Total_scaled)
  show ?thesis
    unfolding Update_unfold [OF assms] L Normalize_def T
    by (simp add: case_prod_unfold comp_def)
qed

theorem Update_posterior_witness:
  "distinct (map fst [(5::real, 1/2::real), (10, 1/2)])
   \<and> Update [(5, 1/2), (10, 1/2)] 12
       = Inr [(5, (exp (- 1) / 24) / (exp (- 1) / 24 + exp (- 2) / 12)),
              (10, (exp (- 2) / 12) / (exp (- 1) / 24 + exp (- 2) / 12))]
   \<and> Update [(5, 1/2), (10, 1/2)] 12 \<noteq> Inr [(5, 1/2), (10, 1/2)]"
proof -
  let ?s = "[(5::real, 1/2::real), (10, 1/2)]"
  let ?Z = "exp (- 1) / (24::real) + exp (- 2) / 12"
  have d: "distinct (map fst ?s)" by simp
  have Z: "(\<Sum>(h, p)\<leftarrow>?s. p * ((h / 60) * exp (- (h / 60) * 12))) = ?Z" by simp
  have "0 < ?Z" by (simp add: add_pos_pos)
  then have nz: "?Z \<noteq> 0" by simp
  have U: "Update ?s 12
       = Inr [(5, (exp (- 1) / 24) / ?Z), (10, (exp (- 2) / 12) / ?Z)]"
  proof -
    have r: "5 * a / (5 * a + 10 * b) = a / (a + 2 * b)
        \<and> 5 * b / (5 * a / 2 + 5 * b) = b / (a / 2 + b)"
      if "0 < a" "0 < b" for a b :: real
    proof -
      have "a + 2 * b \<noteq> 0" "5 * a + 10 * b \<noteq> 0" "a / 2 + b \<noteq> 0" "5 * a / 2 + 5 * b \<noteq> 0"
        using that by (simp_all add: add_pos_pos pos_add_strict less_imp_neq [THEN not_sym])
      then show ?thesis by (simp add: field_simps)
    qed
    show ?thesis
      using Update_posterior [OF d, of 12] nz r [of "exp (- 1)" "exp (- 2)"] by simp
  qed
  have lt: "(exp (- 2) / 12) / ?Z < (exp (- 1) / 24) / ?Z"
    by (rule two_point_order)
  have ne: "[(5::real, (exp (- 1) / 24) / ?Z), (10, (exp (- 2) / 12) / ?Z)] \<noteq> [(5, 1/2), (10, 1/2)]"
  proof
    assume "[(5::real, (exp (- 1) / 24) / ?Z), (10, (exp (- 2) / 12) / ?Z)] = [(5, 1/2), (10, 1/2)]"
    then have "(exp (- 1) / 24) / ?Z = 1/2 \<and> (exp (- 2) / 12) / ?Z = 1/2"
      by (simp only: list.inject prod.inject simp_thms)
    with lt show False by linarith
  qed
  from d U ne show ?thesis by (simp only: sum.inject simp_thms)
qed

subsection \<open>Building distributions\<close>

lemma update_fresh:
  "k \<notin> fst ` set d \<Longrightarrow> AList.update k v d = d @ [(k, v)]"
  by (induction d) auto

lemma fold_Set_fresh:
  "distinct (map c ks) \<Longrightarrow> c ` set ks \<inter> fst ` set d = {} \<Longrightarrow>
   fold (\<lambda>k d. Pmf_Set (c k) (f k) d) ks d = d @ map (\<lambda>k. (c k, f k)) ks"
proof (induction ks arbitrary: d)
  case Nil
  then show ?case by simp
next
  case (Cons k ks)
  have fresh: "c k \<notin> fst ` set d" using Cons.prems by auto
  have s: "Pmf_Set (c k) (f k) d = d @ [(c k, f k)]"
    unfolding Pmf_Set_def by (rule update_fresh [OF fresh])
  have "c ` set ks \<inter> fst ` set (d @ [(c k, f k)]) = {}"
    using Cons.prems by auto
  with Cons.IH [of "d @ [(c k, f k)]"] Cons.prems s show ?case by simp
qed

lemma taylor_nonneg_pos:
  assumes "0 \<le> (x::real)"
  shows "0 < (\<Sum>m<Suc n. x ^ m / fact m)"
proof -
  have "(\<Sum>m<Suc n. x ^ m / fact m) = 1 + (\<Sum>m<n. x ^ Suc m / fact (Suc m))"
    by (subst sum.lessThan_Suc_shift) simp
  moreover have "0 \<le> (\<Sum>m<n. x ^ Suc m / fact (Suc m))"
    using assms by (intro sum_nonneg) simp
  ultimately show ?thesis by linarith
qed

lemma taylor_pos: "0 < (\<Sum>m<21. (x::real) ^ m / fact m)"
proof (cases "x < 0")
  case True
  then obtain t where t: "exp x = (\<Sum>m<21. (x ^ m) / fact m) + (exp t / fact 21) * x ^ 21"
    using Maclaurin_exp_lt [of x 21] by auto
  have neg: "x ^ 21 < 0" using True by (simp add: odd_power_less_zero)
  have pos: "0 < exp t / (fact 21 :: real)" by simp
  have "(exp t / fact 21) * x ^ 21 < 0"
    by (rule mult_pos_neg [OF pos neg])
  with t have "exp x < (\<Sum>m<21. (x ^ m) / fact m)" by linarith
  then show ?thesis using exp_gt_zero [of x] by linarith
next
  case False
  then have "0 \<le> x" by simp
  from taylor_nonneg_pos [OF this, of 20] show ?thesis by simp
qed

lemma Poisson_total:
  "(\<Sum>k\<leftarrow>[0..<21]. EvalPoissonPmf k lt) = exp (- lt) * (\<Sum>m<21. lt ^ m / fact m)"
proof -
  have "(\<Sum>k\<leftarrow>[0..<21]. EvalPoissonPmf k lt) = (\<Sum>k<21. EvalPoissonPmf k lt)"
    by (simp add: interv_sum_list_conv_sum_set_nat lessThan_atLeast0)
  also have "\<dots> = exp (- lt) * (\<Sum>m<21. lt ^ m / fact m)"
    by (simp add: EvalPoissonPmf_def sum_distrib_left mult.commute)
  finally show ?thesis .
qed

lemma Poisson_total_pos: "0 < (\<Sum>k\<leftarrow>[0..<21]. EvalPoissonPmf k lt)"
  unfolding Poisson_total using taylor_pos [of lt] by simp

lemma MakePoissonPmf_20:
  "MakePoissonPmf lt 20 =
     Inr (map (\<lambda>k. (int k, EvalPoissonPmf k lt / (\<Sum>j\<leftarrow>[0..<21]. EvalPoissonPmf j lt))) [0..<21])"
proof -
  have f: "fold (\<lambda>k d. Pmf_Set (int k) (EvalPoissonPmf k lt) d) [0..<Suc 20] []
      = map (\<lambda>k. (int k, EvalPoissonPmf k lt)) [0..<Suc 20]"
    using fold_Set_fresh [of int "[0..<Suc 20]" "[]" "\<lambda>k. EvalPoissonPmf k lt"]
    by (simp add: distinct_map)
  have T: "Total (map (\<lambda>k. (int k, EvalPoissonPmf k lt)) [0..<Suc 20])
      = (\<Sum>k\<leftarrow>[0..<21]. EvalPoissonPmf k lt)"
    by (simp add: Total_def comp_def)
  show ?thesis
    unfolding MakePoissonPmf_def f Normalize_def T
    using Poisson_total_pos [of lt] by (simp add: comp_def)
qed

subsection \<open>Accumulating masses\<close>

lemma Prob_Incr: "Prob (Incr x t d) y = (if y = x then Prob d x + t else Prob d y)"
  by (simp add: Incr_def Pmf_Set_def Prob_def update_conv')

lemma keys_Incr: "fst ` set (Incr x t d) = insert x (fst ` set d)"
  by (simp add: Incr_def Pmf_Set_def dom_update)

lemma distinct_Incr: "distinct (map fst d) \<Longrightarrow> distinct (map fst (Incr x t d))"
  by (simp add: Incr_def Pmf_Set_def distinct_update)

lemma Prob_fold_Incr:
  "Prob (fold (\<lambda>(x, t) d. Incr x t d) xs d) y
     = Prob d y + (\<Sum>(x, t)\<leftarrow>xs. if x = y then t else 0)"
  by (induction xs arbitrary: d) (auto simp: Prob_Incr)

lemma keys_fold_Incr:
  "fst ` set (fold (\<lambda>(x, t) d. Incr x t d) xs d) = fst ` set d \<union> fst ` set xs"
proof (induction xs arbitrary: d)
  case Nil
  then show ?case by simp
next
  case (Cons a xs)
  obtain x t where a: "a = (x, t)" by (cases a)
  have "fst ` set (fold (\<lambda>(x, t) d. Incr x t d) (a # xs) d)
      = fst ` set (Incr x t d) \<union> fst ` set xs"
    using Cons.IH [of "Incr x t d"] a by simp
  also have "\<dots> = fst ` set d \<union> fst ` set (a # xs)"
    unfolding keys_Incr using a by auto
  finally show ?case .
qed

lemma distinct_fold_Incr:
  "distinct (map fst d) \<Longrightarrow> distinct (map fst (fold (\<lambda>(x, t) d. Incr x t d) xs d))"
  by (induction xs arbitrary: d) (auto simp: distinct_Incr)

lemma Prob_Nil: "Prob [] y = 0"
  by (simp add: Prob_def)

lemma Prob_Cons: "Prob ((x, p) # d) y = (if y = x then p else Prob d y)"
  by (simp add: Prob_def)

lemma Prob_notin: "y \<notin> fst ` set d \<Longrightarrow> Prob d y = 0"
  by (induction d) (auto simp: Prob_Nil Prob_Cons)

lemma sum_at_key:
  "distinct (map fst d) \<Longrightarrow> (\<Sum>(x, t)\<leftarrow>d. if x = y then c * t else 0) = c * Prob d y"
proof (induction d)
  case Nil
  then show ?case by (simp add: Prob_Nil)
next
  case (Cons a d)
  obtain x t where a: "a = (x, t)" by (cases a)
  show ?case
  proof (cases "x = y")
    case True
    then have "y \<notin> fst ` set d" using Cons.prems a by auto
    then have "Prob d y = 0" by (rule Prob_notin)
    with Cons True a show ?thesis by (simp add: Prob_Cons)
  next
    case False
    with Cons a show ?thesis by (auto simp: Prob_Cons)
  qed
qed

lemma inner_fold:
  "fold (\<lambda>(x, p2) mix. Incr x (c * p2) mix) pmf mix
     = fold (\<lambda>(x, t) d. Incr x t d) (map (\<lambda>(x, p2). (x, c * p2)) pmf) mix"
  by (simp add: fold_map comp_def case_prod_unfold)

lemma Mixture_acc:
  "Prob (fold (\<lambda>(pmf, p1) mix. fold (\<lambda>(x, p2) mix. Incr x (p1 * p2) mix) (Items pmf) mix) meta d) y
     = Prob d y + (\<Sum>(pmf, p1)\<leftarrow>meta. \<Sum>(x, p2)\<leftarrow>pmf. if x = y then p1 * p2 else 0)"
proof (induction meta arbitrary: d)
  case Nil
  then show ?case by simp
next
  case (Cons a meta)
  obtain pmf p1 where a: "a = (pmf, p1)" by (cases a)
  have "Prob (fold (\<lambda>(x, p2) mix. Incr x (p1 * p2) mix) pmf d) y
      = Prob d y + (\<Sum>(x, p2)\<leftarrow>pmf. if x = y then p1 * p2 else 0)"
    unfolding inner_fold Prob_fold_Incr
    by (simp add: comp_def case_prod_unfold cong: if_cong)
  with Cons.IH a show ?case by (simp add: Items_def)
qed

lemma Mixture_keys_acc:
  "fst ` set (fold (\<lambda>(pmf, p1) mix. fold (\<lambda>(x, p2) mix. Incr x (p1 * p2) mix) (Items pmf) mix) meta d)
     = fst ` set d \<union> (\<Union>(pmf, p1)\<in>set meta. fst ` set pmf)"
proof (induction meta arbitrary: d)
  case Nil
  then show ?case by simp
next
  case (Cons a meta)
  obtain pmf p1 where a: "a = (pmf, p1)" by (cases a)
  have "fst ` set (fold (\<lambda>(x, p2) mix. Incr x (p1 * p2) mix) pmf d) = fst ` set d \<union> fst ` set pmf"
    unfolding inner_fold keys_fold_Incr by (force simp: image_iff)
  with Cons.IH a show ?case by (auto simp: Items_def)
qed

lemma Mixture_distinct_acc:
  "distinct (map fst d) \<Longrightarrow>
   distinct (map fst (fold (\<lambda>(pmf, p1) mix. fold (\<lambda>(x, p2) mix. Incr x (p1 * p2) mix) (Items pmf) mix) meta d))"
proof (induction meta arbitrary: d)
  case Nil
  then show ?case by simp
next
  case (Cons a meta)
  obtain pmf p1 where a: "a = (pmf, p1)" by (cases a)
  have "distinct (map fst (fold (\<lambda>(x, p2) mix. Incr x (p1 * p2) mix) pmf d))"
    unfolding inner_fold using Cons.prems by (rule distinct_fold_Incr)
  with Cons.IH a show ?case by (simp add: Items_def)
qed

lemma Mixture_sum_at_key:
  "\<forall>e\<in>set meta. distinct (map fst (fst e)) \<Longrightarrow>
   (\<Sum>(pmf, p1)\<leftarrow>meta. \<Sum>(x, p2)\<leftarrow>pmf. if x = y then p1 * p2 else 0)
     = (\<Sum>(pmf, p1)\<leftarrow>meta. p1 * Prob pmf y)"
proof (induction meta)
  case Nil
  then show ?case by simp
next
  case (Cons a meta)
  obtain pmf p1 where a: "a = (pmf, p1)" by (cases a)
  have "distinct (map fst pmf)" using Cons.prems a by simp
  then have h: "(\<Sum>(x, t)\<leftarrow>pmf. if x = y then p1 * t else 0) = p1 * Prob pmf y"
    by (rule sum_at_key)
  have t: "(\<Sum>(pmf, p1)\<leftarrow>meta. \<Sum>(x, p2)\<leftarrow>pmf. if x = y then p1 * p2 else 0)
     = (\<Sum>(pmf, p1)\<leftarrow>meta. p1 * Prob pmf y)"
    using Cons.IH Cons.prems by simp
  show ?case unfolding a using h t by simp
qed

lemma Prob_MakeMixture:
  assumes "\<forall>e\<in>set meta. distinct (map fst (fst e))"
  shows "Prob (MakeMixture meta) y = (\<Sum>(pmf, p1)\<leftarrow>meta. p1 * Prob pmf y)"
  unfolding MakeMixture_def Mixture_acc Mixture_sum_at_key [OF assms]
  by (simp add: Prob_Nil)

lemma keys_MakeMixture:
  "fst ` set (MakeMixture meta) = (\<Union>(pmf, p1)\<in>set meta. fst ` set pmf)"
  unfolding MakeMixture_def Mixture_keys_acc by simp

lemma distinct_MakeMixture: "distinct (map fst (MakeMixture meta))"
  unfolding MakeMixture_def by (rule Mixture_distinct_acc) simp

subsection \<open>The prediction of a suite\<close>

lemma Prob_Shift: "Prob (Shift a d) (k + a) = Prob d k"
  by (induction d) (auto simp: Shift_def Prob_Nil Prob_Cons)

lemma keys_Shift: "fst ` set (Shift a d) = (\<lambda>k. k + a) ` fst ` set d"
  by (force simp: Shift_def image_iff)

lemma distinct_Shift: "distinct (map fst d) \<Longrightarrow> distinct (map fst (Shift a d))"
proof -
  have m: "map fst (Shift a d) = map (\<lambda>k. k + a) (map fst d)"
    by (simp add: Shift_def comp_def case_prod_unfold)
  assume "distinct (map fst d)"
  then show ?thesis unfolding m by (simp add: distinct_map inj_on_def)
qed

lemma PredRemaining_loop_eq:
  "PredRemaining_loop items rem acc =
     Inr (acc @ map (\<lambda>(lam, prob). (projr (MakePoissonPmf (lam * rem / 60) 20), prob)) items)"
proof (induction items arbitrary: acc)
  case Nil
  then show ?case by simp
next
  case (Cons a items)
  obtain lam prob where a: "a = (lam, prob)" by (cases a)
  obtain pmf where pmf: "MakePoissonPmf (lam * rem / 60) 20 = Inr pmf"
    using MakePoissonPmf_20 by blast
  show ?case
    unfolding a using Cons.IH [of "acc @ [(pmf, prob)]"] pmf by (simp add: Let_def)
qed

lemma MakePoissonPmf_keys: "fst ` set (projr (MakePoissonPmf lt 20)) = {0..20}"
proof -
  have "fst ` set (projr (MakePoissonPmf lt 20)) = int ` {0..<21}"
    unfolding MakePoissonPmf_20 by (simp add: image_image)
  also have "\<dots> = {0..<21}"
    using image_int_atLeastLessThan [of 0 21] by simp
  also have "\<dots> = {0..20::int}"
    by auto
  finally show ?thesis .
qed

lemma MakePoissonPmf_distinct: "distinct (map fst (projr (MakePoissonPmf lt 20)))"
  unfolding MakePoissonPmf_20 by (simp add: comp_def distinct_map inj_on_def)

lemma PredRemaining_eq:
  "PredRemaining s rem score =
     Inr (Shift score (MakeMixture (map (\<lambda>(lam, prob). (projr (MakePoissonPmf (lam * rem / 60) 20), prob)) s)))"
  unfolding PredRemaining_def PredRemaining_loop_eq Items_def by simp

lemma meta_distinct:
  "\<forall>e\<in>set (map (\<lambda>(lam, prob). (projr (MakePoissonPmf (lam * rem / 60) 20), prob)) s).
      distinct (map fst (fst e))"
  by (auto simp: MakePoissonPmf_distinct)

lemma meta_keys:
  "(\<Union>(pmf, p1)\<in>set (map (\<lambda>(lam, prob). (projr (MakePoissonPmf (lam * rem / 60) 20), prob)) s).
      fst ` set pmf) = (if s = [] then {} else {0..20})"
proof -
  have "(\<Union>(pmf, p1)\<in>set (map (\<lambda>(lam, prob). (projr (MakePoissonPmf (lam * rem / 60) 20), prob)) s).
      fst ` set pmf) = (\<Union>e\<in>set s. {0..20})"
    by (simp add: case_prod_unfold MakePoissonPmf_keys)
  also have "\<dots> = (if s = [] then {} else {0..20})"
    by (cases s) auto
  finally show ?thesis .
qed

text \<open>
  C2. For every suite, remaining time and score, the prediction of the suite returns a
  distribution \<open>d\<close>: each hypothesis \<open>h\<close> gets the Poisson distribution over the counts
  0 to 20 with expected count \<open>h * rem / 60\<close> (the Poisson masses divided by their
  total), the mass of \<open>d\<close> at \<open>k + score\<close> is the sum over the (hypothesis, probability)
  pairs of the probability times that hypothesis's Poisson mass at \<open>k\<close>, and the keys
  of \<open>d\<close> are the counts 0 to 20 shifted by the score (none for an empty suite).
\<close>

theorem PredRemaining_mixture:
  "\<exists>d. PredRemaining s rem score = Inr d
      \<and> (\<forall>k. Prob d (k + score)
              = (\<Sum>(h, p)\<leftarrow>s. p * Prob (projr (MakePoissonPmf (h * rem / 60) 20)) k))
      \<and> (\<forall>h. MakePoissonPmf (h * rem / 60) 20
              = Inr (map (\<lambda>k. (int k, EvalPoissonPmf k (h * rem / 60)
                                  / (\<Sum>j\<leftarrow>[0..<21]. EvalPoissonPmf j (h * rem / 60)))) [0..<21]))
      \<and> distinct (map fst d)
      \<and> fst ` set d = (if s = [] then {} else {score..score + 20})"
proof -
  let ?meta = "map (\<lambda>(lam, prob). (projr (MakePoissonPmf (lam * rem / 60) 20), prob)) s"
  let ?d = "Shift score (MakeMixture ?meta)"
  have 1: "PredRemaining s rem score = Inr ?d" by (rule PredRemaining_eq)
  have 2: "Prob ?d (k + score)
      = (\<Sum>(h, p)\<leftarrow>s. p * Prob (projr (MakePoissonPmf (h * rem / 60) 20)) k)" for k
    unfolding Prob_Shift Prob_MakeMixture [OF meta_distinct]
    by (simp add: comp_def case_prod_unfold)
  have 3: "distinct (map fst ?d)"
    by (rule distinct_Shift [OF distinct_MakeMixture])
  have "(\<lambda>k. k + score) ` {0..20} = {score..score + 20}"
    using image_add_atLeastAtMost' [of score 0 20] by simp
  then have 4: "fst ` set ?d = (if s = [] then {} else {score..score + 20})"
    unfolding keys_Shift keys_MakeMixture meta_keys by simp
  show ?thesis
    using 1 2 3 4 MakePoissonPmf_20 by blast
qed

subsection \<open>Scaling and convolution\<close>

lemma Prob_Scale: "c \<noteq> 0 \<Longrightarrow> Prob (Scale c d) (k * c) = Prob d k"
  by (induction d) (auto simp: Scale_def Prob_Nil Prob_Cons)

lemma keys_Scale: "fst ` set (Scale c d) = (\<lambda>k. k * c) ` fst ` set d"
  by (force simp: Scale_def image_iff)

lemma distinct_Scale:
  assumes "c \<noteq> 0" and "distinct (map fst d)"
  shows "distinct (map fst (Scale c d))"
proof -
  have m: "map fst (Scale c d) = map (\<lambda>k. k * c) (map fst d)"
    by (simp add: Scale_def comp_def case_prod_unfold)
  show ?thesis unfolding m using assms by (simp add: distinct_map inj_on_def)
qed

lemma Convolve_inner:
  "fold (\<lambda>(v2, p2) pmf. Incr (v1 + v2) (p1 * p2) pmf) d2 pmf
     = fold (\<lambda>(x, t) d. Incr x t d) (map (\<lambda>(v2, p2). (v1 + v2, p1 * p2)) d2) pmf"
  by (simp add: fold_map comp_def case_prod_unfold)

lemma Convolve_acc:
  "Prob (fold (\<lambda>(v1, p1) pmf. fold (\<lambda>(v2, p2) pmf. Incr (v1 + v2) (p1 * p2) pmf) (Items d2) pmf) d1 d) v
     = Prob d v + (\<Sum>(v1, p1)\<leftarrow>d1. \<Sum>(v2, p2)\<leftarrow>d2. if v1 + v2 = v then p1 * p2 else 0)"
proof (induction d1 arbitrary: d)
  case Nil
  then show ?case by simp
next
  case (Cons a d1)
  obtain v1 p1 where a: "a = (v1, p1)" by (cases a)
  have "Prob (fold (\<lambda>(v2, p2) pmf. Incr (v1 + v2) (p1 * p2) pmf) d2 d) v
      = Prob d v + (\<Sum>(v2, p2)\<leftarrow>d2. if v1 + v2 = v then p1 * p2 else 0)"
    unfolding Convolve_inner Prob_fold_Incr
    by (simp add: comp_def case_prod_unfold cong: if_cong)
  with Cons.IH a show ?case by (simp add: Items_def)
qed

lemma Convolve_keys_acc:
  "fst ` set (fold (\<lambda>(v1, p1) pmf. fold (\<lambda>(v2, p2) pmf. Incr (v1 + v2) (p1 * p2) pmf) (Items d2) pmf) d1 d)
     = fst ` set d \<union> (\<Union>v1\<in>fst ` set d1. (\<lambda>v2. v1 + v2) ` fst ` set d2)"
proof (induction d1 arbitrary: d)
  case Nil
  then show ?case by simp
next
  case (Cons a d1)
  obtain v1 p1 where a: "a = (v1, p1)" by (cases a)
  have "fst ` set (fold (\<lambda>(v2, p2) pmf. Incr (v1 + v2) (p1 * p2) pmf) d2 d)
      = fst ` set d \<union> (\<lambda>v2. v1 + v2) ` fst ` set d2"
    unfolding Convolve_inner keys_fold_Incr by (force simp: image_iff)
  with Cons.IH a show ?case by (auto simp: Items_def)
qed

lemma Convolve_distinct_acc:
  "distinct (map fst d) \<Longrightarrow>
   distinct (map fst (fold (\<lambda>(v1, p1) pmf. fold (\<lambda>(v2, p2) pmf. Incr (v1 + v2) (p1 * p2) pmf) (Items d2) pmf) d1 d))"
proof (induction d1 arbitrary: d)
  case Nil
  then show ?case by simp
next
  case (Cons a d1)
  obtain v1 p1 where a: "a = (v1, p1)" by (cases a)
  have "distinct (map fst (fold (\<lambda>(v2, p2) pmf. Incr (v1 + v2) (p1 * p2) pmf) d2 d))"
    unfolding Convolve_inner using Cons.prems by (rule distinct_fold_Incr)
  with Cons.IH a show ?case by (simp add: Items_def)
qed

lemma Prob_Convolve:
  "Prob (Convolve d1 d2) v
     = (\<Sum>(v1, p1)\<leftarrow>d1. \<Sum>(v2, p2)\<leftarrow>d2. if v1 + v2 = v then p1 * p2 else 0)"
  unfolding Convolve_def Items_def [of d1] Convolve_acc by (simp add: Prob_Nil)

lemma keys_Convolve:
  "fst ` set (Convolve d1 d2) = (\<Union>v1\<in>fst ` set d1. (\<lambda>v2. v1 + v2) ` fst ` set d2)"
  unfolding Convolve_def Items_def [of d1] Convolve_keys_acc by simp

lemma distinct_Convolve: "distinct (map fst (Convolve d1 d2))"
  unfolding Convolve_def Items_def [of d1] by (rule Convolve_distinct_acc) simp

lemma Prob_in: "distinct (map fst d) \<Longrightarrow> (k, p) \<in> set d \<Longrightarrow> Prob d k = p"
  by (simp add: Prob_def)

lemma sum_entries_as_keys:
  assumes d: "distinct (map fst d)" and ks: "distinct ks" and sub: "fst ` set d \<subseteq> set ks"
    and z: "\<And>k. g k 0 = (0::real)"
  shows "(\<Sum>(k, p)\<leftarrow>d. g k p) = (\<Sum>a\<leftarrow>ks. g a (Prob d a))"
proof -
  have dd: "distinct d" using d by (simp add: distinct_map)
  have inj: "inj_on fst (set d)" using d by (simp add: distinct_map)
  have "(\<Sum>(k, p)\<leftarrow>d. g k p) = (\<Sum>e\<in>set d. g (fst e) (snd e))"
    using sum_list_distinct_conv_sum_set [OF dd, of "\<lambda>e. g (fst e) (snd e)"]
    by (simp add: case_prod_unfold)
  also have "\<dots> = (\<Sum>e\<in>set d. g (fst e) (Prob d (fst e)))"
    by (rule sum.cong) (auto simp: Prob_in [OF d])
  also have "\<dots> = (\<Sum>k\<in>fst ` set d. g k (Prob d k))"
    using sum.reindex [OF inj, of "\<lambda>k. g k (Prob d k)"] by (simp add: comp_def)
  also have "\<dots> = (\<Sum>k\<in>set ks. g k (Prob d k))"
    by (rule sum.mono_neutral_left) (use sub in \<open>auto simp: Prob_notin z\<close>)
  also have "\<dots> = (\<Sum>a\<leftarrow>ks. g a (Prob d a))"
    using sum_list_distinct_conv_sum_set [OF ks, of "\<lambda>a. g a (Prob d a)"] by simp
  finally show ?thesis .
qed

subsection \<open>The prediction of a team\<close>

lemma PredRemaining_total:
  "PredRemaining s rem score = Inr (projr (PredRemaining s rem score))"
  unfolding PredRemaining_eq by simp

lemma PredRemaining_distinct: "distinct (map fst (projr (PredRemaining s rem score)))"
  unfolding PredRemaining_eq by (simp add: distinct_Shift [OF distinct_MakeMixture])

lemma PredRemaining_keys:
  "fst ` set (projr (PredRemaining s rem score)) = (if s = [] then {} else {score..score + 20})"
proof -
  have "(\<lambda>k. k + score) ` {0..20} = {score..score + 20}"
    using image_add_atLeastAtMost' [of score 0 20] by simp
  then show ?thesis
    unfolding PredRemaining_eq sum.sel keys_Shift keys_MakeMixture meta_keys by simp
qed

lemma PredRemaining_keys_0: "fst ` set (projr (PredRemaining s rem 0)) \<subseteq> set [0..20]"
  unfolding PredRemaining_keys by simp

lemma Football_PredRemaining_eq:
  "Football_PredRemaining f rem pts =
     Inr (Shift pts (Convolve (Scale 3 (projr (PredRemaining (FG f) rem 0)))
                              (Scale 7 (projr (PredRemaining (TD f) rem 0)))))"
  unfolding Football_PredRemaining_def
  using PredRemaining_total [of "FG f" rem 0] PredRemaining_total [of "TD f" rem 0]
  by (metis (no_types, lifting) sum.simps(6))

lemma Prob_Convolve_Scale:
  "Prob (Convolve (Scale m d1) (Scale n d2)) v
     = (\<Sum>(a, p)\<leftarrow>d1. \<Sum>(b, q)\<leftarrow>d2. if a * m + b * n = v then p * q else 0)"
  unfolding Prob_Convolve Scale_def
  by (simp add: comp_def case_prod_unfold cong: if_cong)

lemma sum_list_if_zero: "(\<Sum>e\<leftarrow>xs. if P e then (0::real) * f e else 0) = 0"
  by (induction xs) auto

lemma Prob_points:
  assumes d1: "distinct (map fst d1)" and k1: "fst ` set d1 \<subseteq> set [0..20]"
    and d2: "distinct (map fst d2)" and k2: "fst ` set d2 \<subseteq> set [0..20]"
  shows "Prob (Convolve (Scale 3 d1) (Scale 7 d2)) v
     = (\<Sum>a\<leftarrow>[0..20]. \<Sum>b\<leftarrow>[0..20]. if 3 * a + 7 * b = v then Prob d1 a * Prob d2 b else 0)"
proof -
  have inner: "(\<Sum>(b, q)\<leftarrow>d2. if a * 3 + b * 7 = v then p * q else 0)
      = (\<Sum>b\<leftarrow>[0..20]. if 3 * a + 7 * b = v then p * Prob d2 b else 0)" for a p
    using sum_entries_as_keys [OF d2 _ k2, of "\<lambda>b q. if a * 3 + b * 7 = v then p * q else 0"]
    by (simp add: mult.commute)
  have "Prob (Convolve (Scale 3 d1) (Scale 7 d2)) v
      = (\<Sum>(a, p)\<leftarrow>d1. \<Sum>b\<leftarrow>[0..20]. if 3 * a + 7 * b = v then p * Prob d2 b else 0)"
    unfolding Prob_Convolve_Scale inner ..
  also have "\<dots> = (\<Sum>a\<leftarrow>[0..20]. \<Sum>b\<leftarrow>[0..20]. if 3 * a + 7 * b = v then Prob d1 a * Prob d2 b else 0)"
    using sum_entries_as_keys [OF d1 _ k1,
        of "\<lambda>a p. \<Sum>b\<leftarrow>[0..20]. if 3 * a + 7 * b = v then p * Prob d2 b else 0"]
    by (simp add: sum_list_if_zero)
  finally show ?thesis .
qed

text \<open>
  C3. For every team model, remaining time and points already scored, the prediction of
  the team returns the convolution of the field-goal prediction with its keys scaled by
  3 and the touchdown prediction with its keys scaled by 7 (both predictions taken with
  score 0), shifted by the points already scored: the mass at \<open>v + pts\<close> is the sum, over
  the counts \<open>a\<close> and \<open>b\<close> with \<open>3 * a + 7 * b = v\<close>, of the field-goal mass at \<open>a\<close> times
  the touchdown mass at \<open>b\<close>.
\<close>

theorem Football_PredRemaining_convolution:
  "\<exists>fg td d. PredRemaining (FG f) rem 0 = Inr fg
      \<and> PredRemaining (TD f) rem 0 = Inr td
      \<and> Football_PredRemaining f rem pts = Inr d
      \<and> d = Shift pts (Convolve (Scale 3 fg) (Scale 7 td))
      \<and> (\<forall>v. Prob d (v + pts)
             = (\<Sum>a\<leftarrow>[0..20]. \<Sum>b\<leftarrow>[0..20].
                  if 3 * a + 7 * b = v then Prob fg a * Prob td b else 0))"
proof -
  let ?fg = "projr (PredRemaining (FG f) rem 0)"
  let ?td = "projr (PredRemaining (TD f) rem 0)"
  let ?d = "Shift pts (Convolve (Scale 3 ?fg) (Scale 7 ?td))"
  have P: "Prob ?d (v + pts)
      = (\<Sum>a\<leftarrow>[0..20]. \<Sum>b\<leftarrow>[0..20]. if 3 * a + 7 * b = v then Prob ?fg a * Prob ?td b else 0)" for v
    unfolding Prob_Shift
    by (rule Prob_points [OF PredRemaining_distinct PredRemaining_keys_0
          PredRemaining_distinct PredRemaining_keys_0])
  show ?thesis
    using PredRemaining_total [of "FG f" rem 0] PredRemaining_total [of "TD f" rem 0]
      Football_PredRemaining_eq [of f rem pts] P by blast
qed

lemma Football_PredRemaining_keys:
  "fst ` set (projr (Football_PredRemaining f rem pts))
     = (if FG f = [] \<or> TD f = [] then {}
        else (\<lambda>(a, b). 3 * a + 7 * b + pts) ` ({0..20} \<times> {0..20}))"
proof -
  have S: "fst ` set (Scale c d) = (\<lambda>k. c * k) ` fst ` set d" for c d
    unfolding keys_Scale by (simp add: mult.commute)
  show ?thesis
    unfolding Football_PredRemaining_eq sum.sel keys_Shift keys_Convolve S PredRemaining_keys
    by (auto simp: image_iff Bex_def)
qed

text \<open>
  C10. For every team model, remaining time and points already scored, the prediction of
  the team returns a distribution each of whose keys is \<open>3 * a + 7 * b + pts\<close> for counts
  \<open>a\<close> and \<open>b\<close> between 0 and 20, and so lies between \<open>pts\<close> and \<open>pts + 200\<close>.
\<close>

theorem Football_PredRemaining_key_range:
  "\<exists>d. Football_PredRemaining f rem pts = Inr d
     \<and> (\<forall>k\<in>fst ` set d. \<exists>a b. 0 \<le> a \<and> a \<le> 20 \<and> 0 \<le> b \<and> b \<le> 20 \<and> k = 3 * a + 7 * b + pts)
     \<and> (\<forall>k\<in>fst ` set d. pts \<le> k \<and> k \<le> pts + 200)"
proof -
  let ?d = "projr (Football_PredRemaining f rem pts)"
  have 1: "Football_PredRemaining f rem pts = Inr ?d"
    unfolding Football_PredRemaining_eq by simp
  have 2: "\<exists>a b. 0 \<le> a \<and> a \<le> 20 \<and> 0 \<le> b \<and> b \<le> 20 \<and> k = 3 * a + 7 * b + pts"
    if "k \<in> fst ` set ?d" for k
    using that unfolding Football_PredRemaining_keys
    by (auto split: if_splits)
  have 3: "pts \<le> k \<and> k \<le> pts + 200" if "k \<in> fst ` set ?d" for k
    using 2 [OF that] by auto
  show ?thesis using 1 2 3 by blast
qed

theorem Football_PredRemaining_key_range_witness:
  "\<exists>d. Football_PredRemaining \<lparr>TD = [(14, 1)], FG = [(7, 1)]\<rparr> 60 3 = Inr d
     \<and> 3 \<in> fst ` set d \<and> 203 \<in> fst ` set d
     \<and> (\<forall>k\<in>fst ` set d. \<exists>a b. 0 \<le> a \<and> a \<le> 20 \<and> 0 \<le> b \<and> b \<le> 20 \<and> k = 3 * a + 7 * b + 3)
     \<and> (\<forall>k\<in>fst ` set d. 3 \<le> k \<and> k \<le> 3 + 200)"
proof -
  let ?f = "\<lparr>TD = [(14, 1)], FG = [(7, 1)]\<rparr>"
  have k: "fst ` set (projr (Football_PredRemaining ?f 60 3))
      = (\<lambda>(a, b). 3 * a + 7 * b + 3) ` ({0..20} \<times> {0..20})"
    unfolding Football_PredRemaining_keys by simp
  have a: "3 \<in> fst ` set (projr (Football_PredRemaining ?f 60 3))"
    unfolding k by (rule image_eqI [of _ _ "(0, 0)"]) simp_all
  have b: "203 \<in> fst ` set (projr (Football_PredRemaining ?f 60 3))"
    unfolding k by (rule image_eqI [of _ _ "(20, 20)"]) simp_all
  from Football_PredRemaining_key_range [of ?f 60 3] a b show ?thesis
    by (metis sum.sel(2))
qed

subsection \<open>The update of a team and of a suite\<close>

text \<open>
  C4. The update of a team is specified to route each gap to its own suite and to
  complete without error. The method reads the attribute \<open>score\<close>, which no instance
  has, before it touches either suite: for every team model and every observation it
  raises AttributeError and updates nothing.
\<close>

theorem Football_Update_fails:
  "Football_Update f data = Inl (AttributeError ''score'')"
  by (simp add: Football_Update_def Football_getattr_def)

lemma Football_UpdateFG_keeps_TD: "Football_UpdateFG f x = Inr f' \<Longrightarrow> TD f' = TD f"
  by (auto simp: Football_UpdateFG_def split: sum.splits)

lemma Football_UpdateTD_keeps_FG: "Football_UpdateTD f x = Inr f' \<Longrightarrow> FG f' = FG f"
  by (auto simp: Football_UpdateTD_def split: sum.splits)

lemma Total_Normalize:
  "Total d \<noteq> 0 \<Longrightarrow> Total (map (\<lambda>(x, p). (x, p / Total d)) d) = 1"
proof -
  assume nz: "Total d \<noteq> 0"
  have "Total (map (\<lambda>(x, p). (x, p / c)) d) = Total d / c" for c
    unfolding Total_def by (induction d) (auto simp: add_divide_distrib)
  then show ?thesis using nz by simp
qed

text \<open>
  C5. For every suite whose masses, multiplied by the likelihoods of the observed gap,
  have a total that is not zero, the update returns a distribution whose masses sum to 1.
\<close>

theorem Update_normalized:
  assumes "distinct (map fst s)"
    and "(\<Sum>(h, p)\<leftarrow>s. p * Likelihood x h) \<noteq> 0"
  shows "\<exists>s'. Update s x = Inr s' \<and> Total s' = 1"
proof -
  let ?m = "map (\<lambda>(h, p). (h, p * Likelihood x h)) s"
  have nz: "Total ?m \<noteq> 0" using assms(2) by (simp add: Total_scaled)
  have "Update s x = Inr (map (\<lambda>(x, p). (x, p / Total ?m)) ?m)"
    unfolding Update_unfold [OF assms(1)] Normalize_def using nz by simp
  moreover have "Total (map (\<lambda>(x, p). (x, p / Total ?m)) ?m) = 1"
    by (rule Total_Normalize [OF nz])
  ultimately show ?thesis by blast
qed

theorem Update_normalized_witness:
  "distinct (map fst [(5::real, 1/2::real), (10, 1/2)])
   \<and> (\<Sum>(h, p)\<leftarrow>[(5::real, 1/2::real), (10, 1/2)]. p * Likelihood 12 h) \<noteq> 0
   \<and> (\<exists>s'. Update [(5, 1/2), (10, 1/2)] 12 = Inr s' \<and> Total s' = 1)"
proof -
  have d: "distinct (map fst [(5::real, 1/2::real), (10, 1/2)])" by simp
  have "0 < (\<Sum>(h, p)\<leftarrow>[(5::real, 1/2::real), (10, 1/2)]. p * Likelihood 12 h)"
    by (simp add: Likelihood_eq add_pos_pos)
  then have nz: "(\<Sum>(h, p)\<leftarrow>[(5::real, 1/2::real), (10, 1/2)]. p * Likelihood 12 h) \<noteq> 0"
    by simp
  from Update_normalized [OF d nz] d nz show ?thesis by blast
qed

text \<open>
  C6. Normalizing a distribution of total mass zero signals the error
  DegenerateDistribution, and so does an update after which the multiplied masses have
  total zero: the result is the error, never a distribution.
\<close>

theorem Update_degenerate:
  "(Total d = 0 \<longrightarrow> Normalize d = Inl DegenerateDistribution)
   \<and> (distinct (map fst s) \<and> (\<Sum>(h, p)\<leftarrow>s. p * Likelihood x h) = 0
        \<longrightarrow> Update s x = Inl DegenerateDistribution)"
proof -
  have "Update s x = Inl DegenerateDistribution"
    if "distinct (map fst s)" and "(\<Sum>(h, p)\<leftarrow>s. p * Likelihood x h) = 0"
    unfolding Update_unfold [OF that(1)] Normalize_def using that(2) by (simp add: Total_scaled)
  then show ?thesis by (simp add: Normalize_def)
qed

theorem Update_degenerate_witness:
  "Total [(0::real, 0), (1, 0)] = 0 \<and> Normalize [(0::real, 0), (1, 0)] = Inl DegenerateDistribution
   \<and> distinct (map fst [(0::real, 1::real)])
   \<and> (\<Sum>(h, p)\<leftarrow>[(0::real, 1::real)]. p * Likelihood 12 h) = 0
   \<and> Update [(0, 1)] 12 = Inl DegenerateDistribution"
  using Update_degenerate [of "[(0::real, 0), (1, 0)]" "[(0, 1)]" 12]
  by (simp add: Total_def Likelihood_eq)

subsection \<open>The two-point scenario and the signs of the inputs\<close>

lemma Update_two_point:
  "Update [(5, 1/2), (10, 1/2)] 12
     = Inr [(5, (exp (- 1) / 24) / (exp (- 1) / 24 + exp (- 2) / 12)),
            (10, (exp (- 2) / 12) / (exp (- 1) / 24 + exp (- 2) / 12))]"
proof -
  have d: "distinct (map fst [(5::real, 1/2::real), (10, 1/2)])" by simp
  have pos: "0 < exp (- 1) / (24::real) + exp (- 2) / 12"
    by (simp add: add_pos_pos)
  then have nz: "exp (- 1) / (24::real) + exp (- 2) / 12 \<noteq> 0" by simp
  show ?thesis
    unfolding Update_unfold [OF d] Normalize_def
    using nz by (simp add: Likelihood_eq Total_def)
qed

lemma ScoreType_init_two_point: "ScoreType_init [5, 10] = Inr [(5, 1/2), (10, 1/2)]"
  by (simp add: ScoreType_init_def Pmf_Set_def Normalize_def Total_def)

text \<open>
  C8. From the uniform prior over the hypotheses 5 and 10, an update with a gap of 12
  minutes is specified to leave hypothesis 10 more probable than hypothesis 5. It does
  not: the likelihoods are \<open>exp (-1) / 12\<close> and \<open>exp (-2) / 6\<close>, and \<open>2 * exp (-1) < 1\<close>.
\<close>

theorem two_point_posterior_favours_10_counterexample:
  "ScoreType_init [5, 10] = Inr [(5, 1/2), (10, 1/2)]
   \<and> \<not> isl (Update [(5, 1/2), (10, 1/2)] 12)
   \<and> \<not> Prob (projr (Update [(5, 1/2), (10, 1/2)] 12)) 5
        < Prob (projr (Update [(5, 1/2), (10, 1/2)] 12)) 10"
  unfolding Update_two_point using two_point_order
  by (simp add: ScoreType_init_two_point Prob_def)

text \<open>
  C8, amended. From the uniform prior over the hypotheses 5 and 10, an update with a gap
  of 12 minutes returns a posterior in which hypothesis 5 is strictly more probable than
  hypothesis 10; the posterior of 10 is \<open>2 * exp (-1)\<close> times the posterior of 5.
\<close>

theorem two_point_posterior_favours_5:
  "\<exists>prior post. ScoreType_init [5, 10] = Inr prior \<and> Update prior 12 = Inr post
     \<and> Prob post 10 < Prob post 5
     \<and> Prob post 10 = 2 * exp (- 1) * Prob post 5"
proof -
  let ?post = "[(5, (exp (- 1) / 24) / (exp (- 1) / 24 + exp (- 2) / 12)),
            (10::real, (exp (- 2) / 12) / (exp (- 1) / 24 + exp (- 2) / (12::real)))]"
  have 1: "Prob ?post 10 < Prob ?post 5"
    using two_point_order by (simp add: Prob_def)
  have 2: "Prob ?post 10 = 2 * exp (- 1) * Prob ?post 5"
    using two_point_ratio by (simp add: Prob_def)
  show ?thesis
    using ScoreType_init_two_point Update_two_point 1 2 by blast
qed

text \<open>
  C7. An update or prediction is specified to reject a negative hypothesis or a
  negative time delta. It does not: an update with the gap -1 returns a posterior, and
  an update of a suite with the hypothesis -60 returns a posterior with a negative mass.
\<close>

theorem negative_inputs_accepted_counterexample:
  "Update [(60, 1)] (- 1) = Inr [(60, 1)]
   \<and> Update [(- 60, 1/4), (60, 3/4)] 0 = Inr [(- 60, - 1/2), (60, 3/2)]"
proof -
  have a: "Update [(60, 1)] (- 1) = Inr [(60, 1)]"
    using Update_unfold [of "[(60, 1)]" "- 1"]
    by (simp add: Normalize_def Likelihood_eq Total_def)
  have b: "Update [(- 60, 1/4), (60, 3/4)] 0 = Inr [(- 60, - 1/2), (60, 3/2)]"
    using Update_unfold [of "[(- 60, 1/4), (60, 3/4)]" 0]
    by (simp add: Normalize_def Likelihood_eq Total_def)
  from a b show ?thesis ..
qed

lemma Prob_map_entry:
  assumes "distinct (map fst s)" and "(h, p) \<in> set s"
  shows "Prob (map (\<lambda>(h, p). (h, f h p)) s) h = f h p"
proof -
  have d: "distinct (map fst (map (\<lambda>(h, p). (h, f h p)) s))"
    using assms(1) by (simp add: comp_def case_prod_unfold)
  have m: "(h, f h p) \<in> set (map (\<lambda>(h, p). (h, f h p)) s)"
    using assms(2) by force
  show ?thesis by (rule Prob_in [OF d m])
qed

text \<open>
  C7, amended. The update does not reject a negative hypothesis or a negative time
  delta. For every suite and gap where the hypothesis \<open>h\<close> or the gap is negative, every
  exponent \<open>(h'/60) * x\<close> lies within 700 of zero (where the exponential of a Python float
  is finite) and the multiplied masses have a total \<open>Z\<close> that is not zero, the update
  returns a posterior whose mass at \<open>h\<close> is \<open>prior h * (h/60) * exp (-(h/60) * x) / Z\<close>, the
  value computed for any other input; for a negative hypothesis of positive prior mass
  and positive \<open>Z\<close> that mass is negative.
\<close>

theorem Update_negative_not_rejected:
  assumes "distinct (map fst s)"
    and "(h, p) \<in> set s"
    and "h < 0 \<or> x < 0"
    and "\<forall>e\<in>set s. \<bar>fst e / 60 * x\<bar> \<le> 700"
    and "(\<Sum>(h', p')\<leftarrow>s. p' * ((h' / 60) * exp (- (h' / 60) * x))) \<noteq> 0"
  shows "\<exists>s'. Update s x = Inr s'
     \<and> Prob s' h = p * ((h / 60) * exp (- (h / 60) * x))
                    / (\<Sum>(h', p')\<leftarrow>s. p' * ((h' / 60) * exp (- (h' / 60) * x)))
     \<and> (h < 0 \<and> 0 < p \<and> 0 < (\<Sum>(h', p')\<leftarrow>s. p' * ((h' / 60) * exp (- (h' / 60) * x)))
          \<longrightarrow> Prob s' h < 0)"
proof -
  let ?f = "\<lambda>h. (h / 60) * exp (- (h / 60) * x)"
  let ?Z = "\<Sum>(h', p')\<leftarrow>s. p' * ?f h'"
  let ?s' = "map (\<lambda>(h, p). (h, p * ?f h / ?Z)) s"
  have L: "Likelihood x = ?f"
    by (rule ext) (simp add: Likelihood_eq)
  have T: "Total (map (\<lambda>(h, p). (h, p * ?f h)) s) = ?Z"
    by (rule Total_scaled)
  have U: "Update s x = Inr ?s'"
    unfolding Update_unfold [OF assms(1)] L Normalize_def T
    using assms(5) by (simp add: case_prod_unfold comp_def)
  have P: "Prob ?s' h = p * ?f h / ?Z"
    by (rule Prob_map_entry [OF assms(1) assms(2)])
  have N: "Prob ?s' h < 0" if "h < 0" "0 < p" "0 < ?Z"
  proof -
    have "?f h < 0" using that(1) by (simp add: mult_neg_pos)
    then have "p * ?f h < 0" using that(2) by (simp add: mult_pos_neg)
    then show ?thesis unfolding P using that(3) by (simp add: divide_neg_pos)
  qed
  from U P N show ?thesis by blast
qed

theorem Update_negative_not_rejected_witness:
  "distinct (map fst [(- 60 :: real, 1/4 :: real), (60, 3/4)])
   \<and> (- 60, 1/4) \<in> set [(- 60 :: real, 1/4 :: real), (60, 3/4)]
   \<and> ((- 60 :: real) < 0 \<or> (- 1 :: real) < 0)
   \<and> \<bar>(- 60 :: real) / 60 * (- 1)\<bar> \<le> 700 \<and> \<bar>(60 :: real) / 60 * (- 1)\<bar> \<le> 700
   \<and> (\<Sum>(h', p')\<leftarrow>[(- 60 :: real, 1/4 :: real), (60, 3/4)].
          p' * ((h' / 60) * exp (- (h' / 60) * (- 1)))) > 0
   \<and> (\<exists>s'. Update [(- 60, 1/4), (60, 3/4)] (- 1) = Inr s' \<and> Prob s' (- 60) < 0)"
proof -
  let ?s = "[(- 60 :: real, 1/4 :: real), (60, 3/4)]"
  let ?Z = "\<Sum>(h', p')\<leftarrow>?s. p' * ((h' / 60) * exp (- (h' / 60) * (- 1)))"
  have d: "distinct (map fst ?s)" by simp
  have m: "(- 60, 1/4) \<in> set ?s" by simp
  have n: "(- 60 :: real) < 0 \<or> (- 1 :: real) < 0" by simp
  have b: "\<forall>e\<in>set ?s. \<bar>fst e / 60 * (- 1)\<bar> \<le> 700" by simp
  have Z: "?Z = 3 * exp 1 / 4 - exp (- 1) / 4" by simp
  have "exp (- 1 :: real) < 1" "1 < exp (1 :: real)" by simp_all
  then have pos: "0 < ?Z" unfolding Z by linarith
  then have nz: "?Z \<noteq> 0" by simp
  obtain s' where s': "Update ?s (- 1) = Inr s'"
    "(- 60 :: real) < 0 \<and> 0 < (1/4 :: real) \<and> 0 < ?Z \<longrightarrow> Prob s' (- 60) < 0"
    using Update_negative_not_rejected [OF d m n b nz] by blast
  from s'(2) pos have "Prob s' (- 60) < 0" by simp
  with s'(1) have c: "\<exists>s'. Update ?s (- 1) = Inr s' \<and> Prob s' (- 60) < 0" by blast
  have b1: "\<bar>(- 60 :: real) / 60 * (- 1)\<bar> \<le> 700" by simp
  have b2: "\<bar>(60 :: real) / 60 * (- 1)\<bar> \<le> 700" by simp
  from d m n b1 b2 pos c show ?thesis by blast
qed

subsection \<open>The driver\<close>

lemma main_eq:
  "main pl ci ed gd =
     (case constructPriors ed gd of
        Inl e \<Rightarrow> Inl e
      | Inr teams \<Rightarrow> Inl (NameError ''GoalTotal_giants''))"
  unfolding main_def Football_PredRemaining_eq
  by (simp add: lookup_name_def split: sum.splits prod.splits)

lemma sum_list_pos:
  "list_all (\<lambda>e. 0 \<le> f e) xs \<Longrightarrow> list_ex (\<lambda>e. 0 < f e) xs \<Longrightarrow> 0 < (\<Sum>e\<leftarrow>xs. (f e :: real))"
proof (induction xs)
  case Nil
  then show ?case by simp
next
  case (Cons a xs)
  have nn: "0 \<le> (\<Sum>e\<leftarrow>xs. f e)"
    using Cons.prems(1) by (intro sum_list_nonneg) (auto simp: list_all_iff)
  show ?case
  proof (cases "0 < f a")
    case True
    with nn show ?thesis by simp
  next
    case False
    with Cons.prems have "list_ex (\<lambda>e. 0 < f e) xs" by simp
    with Cons have "0 < (\<Sum>e\<leftarrow>xs. f e)" by simp
    moreover have "0 \<le> f a" using Cons.prems(1) by simp
    ultimately show ?thesis by simp
  qed
qed

lemma list_ex_imp: "list_ex P xs \<Longrightarrow> (\<And>e. P e \<Longrightarrow> Q e) \<Longrightarrow> list_ex Q xs"
  by (induction xs) auto

lemma list_all_imp: "list_all P xs \<Longrightarrow> (\<And>e. P e \<Longrightarrow> Q e) \<Longrightarrow> list_all Q xs"
  by (induction xs) auto

lemma Likelihood_nonneg: "0 \<le> h \<Longrightarrow> 0 \<le> Likelihood x h"
  by (simp add: Likelihood_eq)

lemma Likelihood_pos: "0 < h \<Longrightarrow> 0 < Likelihood x h"
  by (simp add: Likelihood_eq)

lemma Update_evidence:
  assumes "evidence_suite s"
  shows "\<exists>s'. Update s x = Inr s' \<and> evidence_suite s'"
proof -
  let ?Z = "\<Sum>e\<leftarrow>s. snd e * Likelihood x (fst e)"
  let ?s' = "map (\<lambda>(h, p). (h, p * Likelihood x h / ?Z)) s"
  have d: "distinct (map fst s)" using assms by (simp add: evidence_suite_def)
  have all: "list_all (\<lambda>e. 0 \<le> fst e \<and> 0 \<le> snd e) s"
    using assms by (simp add: evidence_suite_def)
  have ex: "list_ex (\<lambda>e. 0 < fst e \<and> 0 < snd e) s"
    using assms by (simp add: evidence_suite_def)
  have "list_all (\<lambda>e. 0 \<le> snd e * Likelihood x (fst e)) s"
    using all by (rule list_all_imp) (simp add: Likelihood_nonneg)
  moreover have "list_ex (\<lambda>e. 0 < snd e * Likelihood x (fst e)) s"
    using ex by (rule list_ex_imp) (simp add: Likelihood_pos)
  ultimately have Z: "0 < ?Z" by (rule sum_list_pos)
  have T: "Total (map (\<lambda>(h, p). (h, p * Likelihood x h)) s) = ?Z"
    unfolding Total_scaled by (simp add: case_prod_unfold)
  have U: "Update s x = Inr ?s'"
    unfolding Update_unfold [OF d] Normalize_def T using Z
    by (simp add: case_prod_unfold comp_def)
  have 1: "distinct (map fst ?s')"
    using d by (simp add: comp_def case_prod_unfold)
  have "list_all (\<lambda>e. 0 \<le> fst e \<and> 0 \<le> snd e * Likelihood x (fst e) / ?Z) s"
    using all by (rule list_all_imp) (use Z in \<open>simp add: Likelihood_nonneg\<close>)
  then have 2: "list_all (\<lambda>e. 0 \<le> fst e \<and> 0 \<le> snd e) ?s'"
    by (simp add: list_all_iff case_prod_unfold)
  have "list_ex (\<lambda>e. 0 < fst e \<and> 0 < snd e * Likelihood x (fst e) / ?Z) s"
    using ex by (rule list_ex_imp) (use Z in \<open>simp add: Likelihood_pos\<close>)
  then have 3: "list_ex (\<lambda>e. 0 < fst e \<and> 0 < snd e) ?s'"
    by (simp add: list_ex_iff case_prod_unfold)
  from U 1 2 3 show ?thesis unfolding evidence_suite_def by blast
qed

lemma item_evidence:
  assumes "evidence_suite (TD m)" and "evidence_suite (FG m)"
  shows "\<exists>a b m'. constructPriors_item team (fg, td, m) item = Inr (a, b, m')
           \<and> evidence_suite (TD m') \<and> evidence_suite (FG m')"
proof -
  obtain fg1 where fg1: "Update (FG m) (fg - fst item) = Inr fg1" "evidence_suite fg1"
    using Update_evidence [OF assms(2)] by blast
  obtain td1 where td1: "Update (TD m) (td - fst item) = Inr td1" "evidence_suite td1"
    using Update_evidence [OF assms(1)] by blast
  show ?thesis
    unfolding constructPriors_item_def Football_UpdateFG_def Football_UpdateTD_def
    using fg1 td1 assms by (auto simp: Let_def)
qed

lemma game_evidence:
  "evidence_suite (TD m) \<Longrightarrow> evidence_suite (FG m) \<Longrightarrow>
   \<exists>a b m'. constructPriors_game team (fg, td, m) game = Inr (a, b, m')
           \<and> evidence_suite (TD m') \<and> evidence_suite (FG m')"
proof (induction game arbitrary: fg td m)
  case Nil
  then show ?case by simp
next
  case (Cons item game)
  obtain a b m' where s: "constructPriors_item team (fg, td, m) item = Inr (a, b, m')"
    "evidence_suite (TD m')" "evidence_suite (FG m')"
    using item_evidence [OF Cons.prems] by blast
  from Cons.IH [OF s(2) s(3), of a b] s(1) show ?case by simp
qed

lemma team_evidence:
  "evidence_suite (TD m) \<Longrightarrow> evidence_suite (FG m) \<Longrightarrow>
   \<exists>a b m'. constructPriors_team team (fg, td, m) games = Inr (a, b, m')"
proof (induction games arbitrary: fg td m)
  case Nil
  then show ?case by simp
next
  case (Cons game games)
  obtain a b m' where s: "constructPriors_game team (fg + 60, td + 60, m) game = Inr (a, b, m')"
    "evidence_suite (TD m')" "evidence_suite (FG m')"
    using game_evidence [OF Cons.prems] by blast
  from Cons.IH [OF s(2) s(3), of a b] s(1) show ?case by simp
qed

lemma ScoreType_init_uniform:
  assumes "distinct hypos" and "hypos \<noteq> []"
  shows "ScoreType_init hypos = Inr (map (\<lambda>h. (h, 1 / real (length hypos))) hypos)"
proof -
  have f: "fold (\<lambda>h d. Pmf_Set h 1 d) hypos [] = map (\<lambda>h. (h, 1)) hypos"
    using fold_Set_fresh [of "\<lambda>h. h" hypos "[]" "\<lambda>h. 1"] assms(1) by simp
  have T: "Total (map (\<lambda>h. (h, 1)) hypos) = real (length hypos)" for hypos :: "real list"
    unfolding Total_def by (induction hypos) auto
  have n: "real (length hypos) \<noteq> 0" using assms(2) by simp
  show ?thesis
    unfolding ScoreType_init_def f Normalize_def
    using assms(2) n by (simp add: Let_def T comp_def)
qed

lemma linspace_grid: "linspace 0 20 201 = map (\<lambda>i. real i / 10) [0..<201]"
  by (simp add: linspace_def)

lemma linspace_distinct: "distinct (linspace 0 20 201)"
  unfolding linspace_grid by (simp add: distinct_map inj_on_def)

lemma prior_evidence:
  "\<exists>s. ScoreType_init (linspace 0 20 201) = Inr s \<and> evidence_suite s"
proof -
  let ?g = "linspace 0 20 201"
  let ?s = "map (\<lambda>h. (h, 1 / real (length ?g))) ?g"
  have ne: "?g \<noteq> []" unfolding linspace_grid by simp
  have I: "ScoreType_init ?g = Inr ?s"
    by (rule ScoreType_init_uniform [OF linspace_distinct ne])
  have 1: "distinct (map fst ?s)"
    using linspace_distinct by (simp add: comp_def)
  have 2: "list_all (\<lambda>e. 0 \<le> fst e \<and> 0 \<le> snd e) ?s"
    unfolding linspace_grid by (simp add: list_all_iff)
  have "1 / 10 \<in> set ?g"
    unfolding linspace_grid by (auto simp: image_iff intro: bexI [of _ 1])
  then have 3: "list_ex (\<lambda>e. 0 < fst e \<and> 0 < snd e) ?s"
    using ne by (auto simp: list_ex_iff intro!: bexI [of _ "1 / 10"])
  from I 1 2 3 show ?thesis unfolding evidence_suite_def by blast
qed

lemma Football_init_evidence:
  "\<exists>m. Football_init (linspace 0 20 201, linspace 0 20 201) = Inr m
     \<and> evidence_suite (TD m) \<and> evidence_suite (FG m)"
proof -
  obtain s where s: "ScoreType_init (linspace 0 20 201) = Inr s" "evidence_suite s"
    using prior_evidence by blast
  have "Football_init (linspace 0 20 201, linspace 0 20 201) = Inr \<lparr>TD = s, FG = s\<rparr>"
    unfolding Football_init_def using s(1) by simp
  with s(2) show ?thesis by simp
qed

lemma constructPriors_total: "\<exists>teams. constructPriors eagles_data giants_data = Inr teams"
proof -
  obtain m where m: "Football_init (linspace 0 20 201, linspace 0 20 201) = Inr m"
    "evidence_suite (TD m)" "evidence_suite (FG m)"
    using Football_init_evidence by blast
  obtain a b e where e: "constructPriors_team ''Eagles'' (0, 0, m) eagles_data = Inr (a, b, e)"
    using team_evidence [OF m(2) m(3)] by blast
  obtain c d g where g: "constructPriors_team ''Giants'' (0, 0, m) giants_data = Inr (c, d, g)"
    using team_evidence [OF m(2) m(3)] by blast
  show ?thesis
    unfolding constructPriors_def using m(1) e g by simp
qed

text \<open>
  C9. The driver is specified to complete, given well-formed logs, and to print the win
  probabilities and the credible intervals. For every pair of logs the priors are built
  and both predictions are made without error, and then the first \<open>print\<close> reads the
  name \<open>GoalTotal_giants\<close>, which is bound nowhere (the local is \<open>GoalTotalGiants\<close>): main
  raises NameError and prints nothing.
\<close>

theorem main_raises_NameError:
  "main ProbLess CredibleInterval eagles_data giants_data = Inl (NameError ''GoalTotal_giants'')"
proof -
  obtain teams where "constructPriors eagles_data giants_data = Inr teams"
    using constructPriors_total by blast
  then show ?thesis unfolding main_eq by simp
qed

end
